theory Spec2Isabelle
  imports Main "HOL-Library.Sublist"
begin

section \<open>Data model of the genicam device plugin\<close>

text \<open>
  The plugin keeps a cache \<open>devices\<close> from serial number to address, filled by the
  fingerprint loop (\<open>writeFingerprintToChannel\<close>) and read by \<open>Reserve\<close>.
  Go strings are byte strings and are modelled as \<open>string\<close>; Go maps as partial
  functions; a Go \<open>(value, error)\<close> result pair as a pair whose second component is
  \<open>None\<close> for a nil error.
\<close>

subsection \<open>Constants of device.go\<close>

definition pluginName :: string where
  "pluginName = ''genicam-device''"

definition pluginVersion :: string where
  "pluginVersion = ''v0.0.1''"

text \<open>The package constant \<open>vendor\<close>; the record field of the same name below keeps
  the name \<open>vendor\<close>, so the constant carries a suffix.\<close>

definition vendor_const :: string where
  "vendor_const = ''tis''"

definition deviceType :: string where
  "deviceType = ''genicam''"

definition deviceSerialNbr :: string where
  "deviceSerialNbr = ''GENICAM_DEVICE_SERIAL_NBR''"

definition deviceAddress :: string where
  "deviceAddress = ''GENICAM_DEVICE_ADDRESS''"

subsection \<open>Errors\<close>

text \<open>
  \<open>ErrorString\<close> is an error made by \<open>fmt.Errorf\<close> from a fixed message,
  \<open>ReservationError\<close> is the struct \<open>reservationError\<close> with its field
  \<open>notExistingIDs\<close>, \<open>UnknownDevice s\<close> is the gRPC status error
  \<open>status.Newf(codes.InvalidArgument, "unknown device %q", s).Err()\<close>, and
  \<open>Errno\<close> is a non-nil error that cgo reports for a call into the aravis library.
\<close>

datatype error =
    ErrorString string
  | ReservationError "string list"
  | UnknownDevice string
  | Errno nat

definition errPluginDisabled :: error where
  "errPluginDisabled = ErrorString ''genicam device is not enabled''"

text \<open>\<open>strings.Join\<close>: the elements separated by \<open>sep\<close>.\<close>

fun Join :: "string list \<Rightarrow> string \<Rightarrow> string" where
  "Join [] sep = []"
| "Join [x] sep = x"
| "Join (x # y # ys) sep = x @ sep @ Join (y # ys) sep"

text \<open>The method \<open>Error\<close> of \<open>reservationError\<close>.\<close>

definition reservationError_Error :: "string list \<Rightarrow> string" where
  "reservationError_Error notExistingIDs =
     ''unknown device IDs: '' @ Join notExistingIDs '',''"

subsection \<open>The plugin state and the reservation response\<close>

text \<open>
  \<open>GenicamDevice\<close> without its logger and lock: the lock is not data, and its use is
  recorded in the event trace of the fingerprint cycle below. The period is kept in
  nanoseconds, as \<open>time.Duration\<close> does.
\<close>

record GenicamDevice =
  enabled :: bool
  fingerprintPeriod :: int
  devices :: "string \<rightharpoonup> string"

text \<open>\<open>NewGenicamDevice\<close> sets the logger and an empty map; the other fields have
  Go's zero values.\<close>

definition NewGenicamDevice :: GenicamDevice where
  "NewGenicamDevice = \<lparr>enabled = False, fingerprintPeriod = 0, devices = Map.empty\<rparr>"

text \<open>
  \<open>device.ContainerReservation\<close> of the Nomad plugin API. A mount is (task path, host
  path, read-only) and a device spec is (task path, host path, cgroup permissions); the
  plugin never builds either. A nil map and an empty map are both \<open>Map.empty\<close>.
\<close>

type_synonym Mount = "string \<times> string \<times> bool"
type_synonym DeviceSpec = "string \<times> string \<times> string"

record ContainerReservation =
  Envs :: "string \<rightharpoonup> string"
  Mounts :: "Mount list"
  Devices :: "DeviceSpec list"

section \<open>Reserve\<close>

text \<open>The first loop of \<open>Reserve\<close>: the requested ids that are not keys of the cache,
  in request order.\<close>

fun notExisting :: "(string \<rightharpoonup> string) \<Rightarrow> string list \<Rightarrow> string list \<Rightarrow> string list" where
  "notExisting cache [] notExistingIDs = notExistingIDs"
| "notExisting cache (i # ids) notExistingIDs =
     (case cache i of
        None \<Rightarrow> notExisting cache ids (notExistingIDs @ [i])
      | Some _ \<Rightarrow> notExisting cache ids notExistingIDs)"

text \<open>
  The second loop of \<open>Reserve\<close>: it looks every id up again, returns the status error
  for an id that is not found, and otherwise stores serial number and address under the
  two fixed environment names.
\<close>

fun buildResponse ::
  "(string \<rightharpoonup> string) \<Rightarrow> string list \<Rightarrow> ContainerReservation \<Rightarrow> error + ContainerReservation" where
  "buildResponse cache [] resp = Inr resp"
| "buildResponse cache (serial_nbr # ids) resp =
     (case cache serial_nbr of
        None \<Rightarrow> Inl (UnknownDevice serial_nbr)
      | Some address \<Rightarrow>
          buildResponse cache ids
            (resp\<lparr>Envs := ((Envs resp)(deviceSerialNbr \<mapsto> serial_nbr))(deviceAddress \<mapsto> address)\<rparr>))"

text \<open>
  \<open>Reserve\<close> reads the cache twice: under the read lock in the first loop, and after
  the lock is released in the second. \<open>ReserveAt d cache2 deviceIDs\<close> is the function
  with \<open>cache2\<close> the content of \<open>d.devices\<close> during the second loop; \<open>Reserve\<close> is
  the call with no write to the cache in between.
\<close>

definition ReserveAt ::
  "GenicamDevice \<Rightarrow> (string \<rightharpoonup> string) \<Rightarrow> string list \<Rightarrow> error + ContainerReservation" where
  "ReserveAt d cache2 deviceIDs =
     (if length deviceIDs = 0 then Inr \<lparr>Envs = Map.empty, Mounts = [], Devices = []\<rparr>
      else if \<not> enabled d then Inl errPluginDisabled
      else
        let notExistingIDs = notExisting (devices d) deviceIDs []
        in if length notExistingIDs \<noteq> 0 then Inl (ReservationError notExistingIDs)
           else buildResponse cache2 deviceIDs \<lparr>Envs = Map.empty, Mounts = [], Devices = []\<rparr>)"

definition Reserve :: "GenicamDevice \<Rightarrow> string list \<Rightarrow> error + ContainerReservation" where
  "Reserve d deviceIDs = ReserveAt d (devices d) deviceIDs"

section \<open>The aravis binding (aravis.go)\<close>

text \<open>
  \<open>ArvDevice\<close> is the struct with the single field \<open>id\<close>, the index of the device in
  the list the C library holds. The index is a \<open>C.uint\<close>; \<open>GetDevices\<close> only builds
  indices below the count the library reports, so no conversion wraps and the index is
  a \<open>nat\<close>.
\<close>

datatype ArvDevice = ArvDevice nat

text \<open>
  What the C library answers after \<open>arv_update_device_list()\<close>: the device count and,
  for every index, the seven string attributes. Every call returns its value and the
  error cgo makes from \<open>errno\<close> (\<open>None\<close> for nil).
\<close>

record aravis =
  arv_get_n_devices :: "nat \<times> error option"
  arv_get_device_id :: "nat \<Rightarrow> string \<times> error option"
  arv_get_device_physical_id :: "nat \<Rightarrow> string \<times> error option"
  arv_get_device_model :: "nat \<Rightarrow> string \<times> error option"
  arv_get_device_serial_nbr :: "nat \<Rightarrow> string \<times> error option"
  arv_get_device_vendor :: "nat \<Rightarrow> string \<times> error option"
  arv_get_device_address :: "nat \<Rightarrow> string \<times> error option"
  arv_get_device_protocol :: "nat \<Rightarrow> string \<times> error option"

fun Id :: "aravis \<Rightarrow> ArvDevice \<Rightarrow> string \<times> error option" where
  "Id hw (ArvDevice i) = arv_get_device_id hw i"

fun PhysicalId :: "aravis \<Rightarrow> ArvDevice \<Rightarrow> string \<times> error option" where
  "PhysicalId hw (ArvDevice i) = arv_get_device_physical_id hw i"

fun Model :: "aravis \<Rightarrow> ArvDevice \<Rightarrow> string \<times> error option" where
  "Model hw (ArvDevice i) = arv_get_device_model hw i"

fun SerialNbr :: "aravis \<Rightarrow> ArvDevice \<Rightarrow> string \<times> error option" where
  "SerialNbr hw (ArvDevice i) = arv_get_device_serial_nbr hw i"

fun Vendor :: "aravis \<Rightarrow> ArvDevice \<Rightarrow> string \<times> error option" where
  "Vendor hw (ArvDevice i) = arv_get_device_vendor hw i"

fun Address :: "aravis \<Rightarrow> ArvDevice \<Rightarrow> string \<times> error option" where
  "Address hw (ArvDevice i) = arv_get_device_address hw i"

fun Protocol :: "aravis \<Rightarrow> ArvDevice \<Rightarrow> string \<times> error option" where
  "Protocol hw (ArvDevice i) = arv_get_device_protocol hw i"

definition GetNumDevices :: "aravis \<Rightarrow> nat \<times> error option" where
  "GetNumDevices hw = arv_get_n_devices hw"

text \<open>\<open>GetDevices\<close>: the nil slice and the error when the count cannot be read,
  otherwise one handle for every index below the count.\<close>

definition GetDevices :: "aravis \<Rightarrow> ArvDevice list \<times> error option" where
  "GetDevices hw =
     (case GetNumDevices hw of
        (ndevices, Some err) \<Rightarrow> ([], Some err)
      | (ndevices, None) \<Rightarrow> (map ArvDevice [0..<ndevices], None))"

section \<open>The fingerprint cycle (fingerprint.go)\<close>

record fingerprintedDevice =
  device_id :: string
  physical_id :: string
  model :: string
  serial_nbr :: string
  vendor :: string
  address :: string
  protocol :: string

text \<open>
  \<open>device.Device\<close>, \<open>device.DeviceGroup\<close> and \<open>device.FingerprintResponse\<close> of the
  Nomad plugin API. \<open>HwLocality\<close> is a pointer the plugin leaves nil. The field
  \<open>Devices\<close> exists in three structs; here it is \<open>Devices\<close> in the reservation,
  \<open>groupDevices\<close> in the group and \<open>fingerprintDevices\<close> in the response. The groups
  of a response are pointers, so a group can be nil (\<open>None\<close>).
\<close>

record Device =
  ID :: string
  Healthy :: bool
  HwLocality :: "string option"

record DeviceGroup =
  Vendor_group :: string
  Type :: string
  Name :: string
  groupDevices :: "Device list"
  Attributes :: "string \<rightharpoonup> string"

record FingerprintResponse =
  fingerprintDevices :: "DeviceGroup option list"
  Error :: "error option"

definition NewFingerprint :: "DeviceGroup option list \<Rightarrow> FingerprintResponse" where
  "NewFingerprint groups = \<lparr>fingerprintDevices = groups, Error = None\<rparr>"

text \<open>
  The body of the discovery loop for one handle. Each of the seven reads that fails
  logs its message and continues with the next handle: the result is then the message
  and the error, and no descriptor.
\<close>

definition readDevice :: "aravis \<Rightarrow> ArvDevice \<Rightarrow> (string \<times> error) + fingerprintedDevice" where
  "readDevice hw dev =
     (case Id hw dev of
        (device_id', Some err) \<Rightarrow> Inl (''failed to get device id'', err)
      | (device_id', None) \<Rightarrow>
     (case PhysicalId hw dev of
        (physical_id', Some err) \<Rightarrow> Inl (''failed to get device physical id'', err)
      | (physical_id', None) \<Rightarrow>
     (case Model hw dev of
        (model', Some err) \<Rightarrow> Inl (''failed to get device model'', err)
      | (model', None) \<Rightarrow>
     (case SerialNbr hw dev of
        (serial_nbr', Some err) \<Rightarrow> Inl (''failed to get device serial number'', err)
      | (serial_nbr', None) \<Rightarrow>
     (case Vendor hw dev of
        (vendor', Some err) \<Rightarrow> Inl (''failed to get device vendor'', err)
      | (vendor', None) \<Rightarrow>
     (case Address hw dev of
        (address', Some err) \<Rightarrow> Inl (''failed to get device address'', err)
      | (address', None) \<Rightarrow>
     (case Protocol hw dev of
        (protocol', Some err) \<Rightarrow> Inl (''failed to get device protocol'', err)
      | (protocol', None) \<Rightarrow>
          Inr \<lparr>device_id = device_id', physical_id = physical_id', model = model',
               serial_nbr = serial_nbr', vendor = vendor', address = address',
               protocol = protocol'\<rparr>)))))))"

text \<open>The discovery loop: \<open>discoveredDevices\<close> grows by one descriptor for every
  handle all of whose reads succeed.\<close>

fun discover ::
  "aravis \<Rightarrow> ArvDevice list \<Rightarrow> fingerprintedDevice list \<Rightarrow> fingerprintedDevice list" where
  "discover hw [] discoveredDevices = discoveredDevices"
| "discover hw (dev # devs) discoveredDevices =
     (case readDevice hw dev of
        Inl _ \<Rightarrow> discover hw devs discoveredDevices
      | Inr fd \<Rightarrow> discover hw devs (discoveredDevices @ [fd]))"

text \<open>
  The loop over \<open>discoveredDevices\<close>: it appends every descriptor to the list of its
  model in \<open>deviceListByDeviceName\<close> (a missing key reads as the nil slice) and stores
  its address under its serial number in the cache \<open>d.devices\<close>.
\<close>

fun mergeLoop ::
  "fingerprintedDevice list \<Rightarrow>
   (string \<rightharpoonup> fingerprintedDevice list) \<times> (string \<rightharpoonup> string) \<Rightarrow>
   (string \<rightharpoonup> fingerprintedDevice list) \<times> (string \<rightharpoonup> string)" where
  "mergeLoop [] (deviceListByDeviceName, cache) = (deviceListByDeviceName, cache)"
| "mergeLoop (device # rest) (deviceListByDeviceName, cache) =
     mergeLoop rest
       (deviceListByDeviceName(model device \<mapsto>
          (case deviceListByDeviceName (model device) of None \<Rightarrow> [] | Some l \<Rightarrow> l) @ [device]),
        cache(serial_nbr device \<mapsto> address device))"

definition deviceGroupFromFingerprintData ::
  "string \<Rightarrow> fingerprintedDevice list \<Rightarrow> DeviceGroup option" where
  "deviceGroupFromFingerprintData groupName deviceList =
     (if length deviceList = 0 then None
      else Some \<lparr>Vendor_group = vendor_const, Type = deviceType, Name = groupName,
                 groupDevices =
                   map (\<lambda>dev. \<lparr>ID = serial_nbr dev, Healthy = True, HwLocality = None\<rparr>) deviceList,
                 Attributes = Map.empty\<rparr>)"

text \<open>
  Go leaves the order in which \<open>range\<close> visits the keys of a map open. The order of one
  run is the list \<open>ks\<close>; \<open>rangeOrder m ks\<close> says that \<open>ks\<close> is such an order for the
  map \<open>m\<close>: every key once.
\<close>

definition rangeOrder :: "(string \<rightharpoonup> 'a) \<Rightarrow> string list \<Rightarrow> bool" where
  "rangeOrder m ks = (distinct ks \<and> set ks = dom m)"

text \<open>The loop that builds \<open>deviceGroups\<close>, visiting the keys in the order \<open>ks\<close>.\<close>

fun groupLoop ::
  "(string \<rightharpoonup> fingerprintedDevice list) \<Rightarrow> string list \<Rightarrow> DeviceGroup option list \<Rightarrow>
   DeviceGroup option list" where
  "groupLoop deviceListByDeviceName [] deviceGroups = deviceGroups"
| "groupLoop deviceListByDeviceName (groupName # ks) deviceGroups =
     groupLoop deviceListByDeviceName ks
       (deviceGroups @
        [deviceGroupFromFingerprintData groupName
           (case deviceListByDeviceName groupName of None \<Rightarrow> [] | Some l \<Rightarrow> l)])"

text \<open>
  What one cycle does, in program order: the operations on \<open>d.deviceLock\<close>, the calls
  into the aravis library, the attribute reads of one handle (the body of the discovery
  loop), the writes to the cache, and the send on the channel.
\<close>

datatype event =
    EvLock
  | EvUnlock
  | EvUpdateDeviceList
  | EvGetDevices
  | EvReadAttributes ArvDevice
  | EvCacheWrite string string
  | EvSend FingerprintResponse

text \<open>
  \<open>writeFingerprintToChannel\<close> from the discovery loop to the send, for the handles
  \<open>devs\<close> that \<open>GetDevices\<close> returned: the new plugin state and the events.
\<close>

definition fingerprintBody ::
  "aravis \<Rightarrow> ArvDevice list \<Rightarrow> string list \<Rightarrow> GenicamDevice \<Rightarrow> GenicamDevice \<times> event list" where
  "fingerprintBody hw devs ks d =
     (let discoveredDevices = discover hw devs [];
          (deviceListByDeviceName, cache) = mergeLoop discoveredDevices (Map.empty, devices d);
          deviceGroups = groupLoop deviceListByDeviceName ks []
      in (d\<lparr>devices := cache\<rparr>,
          map EvReadAttributes devs @
          map (\<lambda>device. EvCacheWrite (serial_nbr device) (address device)) discoveredDevices @
          [EvSend (NewFingerprint deviceGroups)]))"

text \<open>
  \<open>writeFingerprintToChannel\<close>. The lock is taken first and released by the deferred
  unlock when the function returns, after the send. An error of \<open>GetDevices\<close> is
  logged, and the function goes on with the nil slice.
\<close>

definition writeFingerprintToChannel ::
  "aravis \<Rightarrow> string list \<Rightarrow> GenicamDevice \<Rightarrow> GenicamDevice \<times> event list" where
  "writeFingerprintToChannel hw ks d =
     (let (devs, err) = GetDevices hw;
          (d', es) = fingerprintBody hw devs ks d
      in (d', [EvLock, EvUpdateDeviceList, EvGetDevices] @ es @ [EvUnlock]))"

text \<open>
  The plugin state that the loop of \<open>doFingerprint\<close> leaves: one call of
  \<open>writeFingerprintToChannel\<close> for every tick of the timer that fires before the
  context is cancelled. A tick is given by what the hardware answers in its cycle and
  the order in which that cycle ranges over its groups.
\<close>

fun doFingerprint :: "(aravis \<times> string list) list \<Rightarrow> GenicamDevice \<Rightarrow> GenicamDevice" where
  "doFingerprint [] d = d"
| "doFingerprint ((hw, ks) # ticks) d =
     doFingerprint ticks (fst (writeFingerprintToChannel hw ks d))"

text \<open>The descriptors one cycle discovers on \<open>hw\<close>, and its map from model to
  descriptors (the cache plays no part in it).\<close>

definition discoveredIn :: "aravis \<Rightarrow> fingerprintedDevice list" where
  "discoveredIn hw = discover hw (fst (GetDevices hw)) []"

definition byModel :: "fingerprintedDevice list \<Rightarrow> (string \<rightharpoonup> fingerprintedDevice list)" where
  "byModel ds = fst (mergeLoop ds (Map.empty, Map.empty))"

text \<open>
  The specification's words for the discovery loop: a handle survives when all seven
  identity attributes can be read, and its descriptor holds the seven values.
\<close>

definition allReadsSucceed :: "aravis \<Rightarrow> ArvDevice \<Rightarrow> bool" where
  "allReadsSucceed hw dev =
     (snd (Id hw dev) = None \<and> snd (PhysicalId hw dev) = None \<and> snd (Model hw dev) = None \<and>
      snd (SerialNbr hw dev) = None \<and> snd (Vendor hw dev) = None \<and>
      snd (Address hw dev) = None \<and> snd (Protocol hw dev) = None)"

definition descriptorOf :: "aravis \<Rightarrow> ArvDevice \<Rightarrow> fingerprintedDevice" where
  "descriptorOf hw dev =
     \<lparr>device_id = fst (Id hw dev), physical_id = fst (PhysicalId hw dev),
      model = fst (Model hw dev), serial_nbr = fst (SerialNbr hw dev),
      vendor = fst (Vendor hw dev), address = fst (Address hw dev),
      protocol = fst (Protocol hw dev)\<rparr>"

text \<open>The member record the grouping builds for a descriptor.\<close>

definition memberOf :: "fingerprintedDevice \<Rightarrow> Device" where
  "memberOf dev = \<lparr>ID = serial_nbr dev, Healthy = True, HwLocality = None\<rparr>"

text \<open>The responses sent in a trace, the cache writes of a trace, and the events that
  happen while the exclusive lock is held and while it is not (\<open>h\<close> says whether it is
  held at the start).\<close>

fun emitted :: "event list \<Rightarrow> FingerprintResponse list" where
  "emitted [] = []"
| "emitted (EvSend resp # es) = resp # emitted es"
| "emitted (e # es) = emitted es"

fun cacheWrites :: "event list \<Rightarrow> (string \<times> string) list" where
  "cacheWrites [] = []"
| "cacheWrites (EvCacheWrite k v # es) = (k, v) # cacheWrites es"
| "cacheWrites (e # es) = cacheWrites es"

fun underLock :: "bool \<Rightarrow> event list \<Rightarrow> event list" where
  "underLock h [] = []"
| "underLock h (EvLock # es) = underLock True es"
| "underLock h (EvUnlock # es) = underLock False es"
| "underLock h (e # es) = (if h then e # underLock h es else underLock h es)"

fun outsideLock :: "bool \<Rightarrow> event list \<Rightarrow> event list" where
  "outsideLock h [] = []"
| "outsideLock h (EvLock # es) = outsideLock True es"
| "outsideLock h (EvUnlock # es) = outsideLock False es"
| "outsideLock h (e # es) = (if h then outsideLock h es else e # outsideLock h es)"

text \<open>The events of enumeration I/O: the rescan, the listing and the attribute reads.\<close>

fun isEnumeration :: "event \<Rightarrow> bool" where
  "isEnumeration EvUpdateDeviceList = True"
| "isEnumeration EvGetDevices = True"
| "isEnumeration (EvReadAttributes dev) = True"
| "isEnumeration e = False"

subsection \<open>Laboratories and plugin states\<close>

text \<open>
  The scenario of the specification: two cameras of model camX with serial numbers A1
  and A2; the same laboratory with the attribute reads of the first camera failing on
  its address; a laboratory with no camera; and one where the device count cannot be
  read.
\<close>

definition labTwoCameras :: aravis where
  "labTwoCameras =
     \<lparr>arv_get_n_devices = (2, None),
      arv_get_device_id = (\<lambda>i. (if i = 0 then ''cam-0'' else ''cam-1'', None)),
      arv_get_device_physical_id = (\<lambda>i. (if i = 0 then ''phys-0'' else ''phys-1'', None)),
      arv_get_device_model = (\<lambda>i. (''camX'', None)),
      arv_get_device_serial_nbr = (\<lambda>i. (if i = 0 then ''A1'' else ''A2'', None)),
      arv_get_device_vendor = (\<lambda>i. (''The Imaging Source'', None)),
      arv_get_device_address = (\<lambda>i. (if i = 0 then ''10.0.0.1'' else ''10.0.0.2'', None)),
      arv_get_device_protocol = (\<lambda>i. (''GigEVision'', None))\<rparr>"

definition labFirstUnreadable :: aravis where
  "labFirstUnreadable =
     labTwoCameras\<lparr>arv_get_device_address :=
       (\<lambda>i. if i = 0 then ([], Some (Errno 5)) else (''10.0.0.2'', None))\<rparr>"

definition labEmpty :: aravis where
  "labEmpty = labTwoCameras\<lparr>arv_get_n_devices := (0, None)\<rparr>"

definition labBroken :: aravis where
  "labBroken = labTwoCameras\<lparr>arv_get_n_devices := (0, Some (Errno 19))\<rparr>"

text \<open>Three descriptors of two models, the second model seen between the two
  cameras of the first.\<close>

definition threeDescriptors :: "fingerprintedDevice list" where
  "threeDescriptors =
     [\<lparr>device_id = ''cam-0'', physical_id = ''phys-0'', model = ''camX'', serial_nbr = ''A1'',
       vendor = ''The Imaging Source'', address = ''10.0.0.1'', protocol = ''GigEVision''\<rparr>,
      \<lparr>device_id = ''cam-1'', physical_id = ''phys-1'', model = ''camY'', serial_nbr = ''B1'',
       vendor = ''The Imaging Source'', address = ''10.0.0.7'', protocol = ''GigEVision''\<rparr>,
      \<lparr>device_id = ''cam-2'', physical_id = ''phys-2'', model = ''camX'', serial_nbr = ''A2'',
       vendor = ''The Imaging Source'', address = ''10.0.0.2'', protocol = ''GigEVision''\<rparr>]"

text \<open>
  The plugin after one cycle in the laboratory with two cameras: configured with
  \<open>enabled = true\<close>, and configured with \<open>enabled = false\<close>. The fingerprint loop
  does not look at the flag.
\<close>

definition enabledAfterCycle :: GenicamDevice where
  "enabledAfterCycle =
     fst (writeFingerprintToChannel labTwoCameras [''camX''] (NewGenicamDevice\<lparr>enabled := True\<rparr>))"

definition disabledAfterCycle :: GenicamDevice where
  "disabledAfterCycle =
     fst (writeFingerprintToChannel labTwoCameras [''camX''] (NewGenicamDevice\<lparr>enabled := False\<rparr>))"

section \<open>Auxiliary facts\<close>

subsection \<open>The loops of Reserve\<close>

lemma notExisting_filter:
  "notExisting cache ids acc = acc @ filter (\<lambda>i. cache i = None) ids"
  by (induction ids arbitrary: acc) (simp_all split: option.split)

lemma buildResponse_found:
  "\<forall>i\<in>set ids. cache i \<noteq> None \<Longrightarrow> \<exists>r. buildResponse cache ids resp = Inr r"
  by (induction ids arbitrary: resp) auto

lemma buildResponse_last:
  "ids \<noteq> [] \<Longrightarrow> \<forall>i\<in>set ids. cache i \<noteq> None \<Longrightarrow>
   \<exists>a. cache (last ids) = Some a \<and>
     buildResponse cache ids resp =
       Inr (resp\<lparr>Envs := ((Envs resp)(deviceSerialNbr \<mapsto> last ids))(deviceAddress \<mapsto> a)\<rparr>)"
proof (induction ids arbitrary: resp)
  case Nil
  then show ?case by simp
next
  case (Cons i ids)
  show ?case
  proof (cases "ids = []")
    case True
    from Cons.prems obtain b where "cache i = Some b" by auto
    with True show ?thesis by (simp add: fun_upd_def)
  next
    case False
    from Cons.prems obtain b where b: "cache i = Some b" by auto
    from Cons.prems have "\<forall>i\<in>set ids. cache i \<noteq> None" by simp
    from Cons.IH [OF False this]
    obtain a where a: "cache (last ids) = Some a"
      and r: "buildResponse cache ids (resp\<lparr>Envs := ((Envs resp)(deviceSerialNbr \<mapsto> i))(deviceAddress \<mapsto> b)\<rparr>) =
        Inr (resp\<lparr>Envs := ((Envs resp)(deviceSerialNbr \<mapsto> i))(deviceAddress \<mapsto> b)\<rparr>
              \<lparr>Envs := ((Envs (resp\<lparr>Envs := ((Envs resp)(deviceSerialNbr \<mapsto> i))(deviceAddress \<mapsto> b)\<rparr>))(deviceSerialNbr \<mapsto> last ids))(deviceAddress \<mapsto> a)\<rparr>)"
      by blast
    have "((((Envs resp)(deviceSerialNbr \<mapsto> i))(deviceAddress \<mapsto> b))(deviceSerialNbr \<mapsto> last ids))(deviceAddress \<mapsto> a)
          = ((Envs resp)(deviceSerialNbr \<mapsto> last ids))(deviceAddress \<mapsto> a)"
      by (rule ext) simp
    with a r b False show ?thesis by (simp add: fun_upd_def)
  qed
qed

text \<open>The empty request succeeds with the empty reservation, whatever the plugin's
  state.\<close>

lemma Reserve_empty:
  "Reserve d [] = Inr \<lparr>Envs = Map.empty, Mounts = [], Devices = []\<rparr>"
  by (simp add: Reserve_def ReserveAt_def)

text \<open>A successful reservation of one or more devices holds the serial number and the
  address of the last requested one, and nothing else.\<close>

lemma Reserve_keeps_last:
  assumes "enabled d" and "deviceIDs \<noteq> []" and "\<forall>i\<in>set deviceIDs. devices d i \<noteq> None"
  shows "\<exists>a. devices d (last deviceIDs) = Some a \<and>
           Reserve d deviceIDs =
             Inr \<lparr>Envs = [deviceSerialNbr \<mapsto> last deviceIDs, deviceAddress \<mapsto> a],
                  Mounts = [], Devices = []\<rparr>"
proof -
  from assms(3) have "notExisting (devices d) deviceIDs [] = []"
    by (simp add: notExisting_filter filter_empty_conv)
  with assms(1,2) have r: "Reserve d deviceIDs =
      buildResponse (devices d) deviceIDs \<lparr>Envs = Map.empty, Mounts = [], Devices = []\<rparr>"
    by (simp add: Reserve_def ReserveAt_def)
  from buildResponse_last [OF assms(2,3), of "\<lparr>Envs = Map.empty, Mounts = [], Devices = []\<rparr>"]
  obtain a where "devices d (last deviceIDs) = Some a"
    and "buildResponse (devices d) deviceIDs \<lparr>Envs = Map.empty, Mounts = [], Devices = []\<rparr> =
      Inr \<lparr>Envs = [deviceSerialNbr \<mapsto> last deviceIDs, deviceAddress \<mapsto> a],
           Mounts = [], Devices = []\<rparr>"
    by auto
  with r show ?thesis by simp
qed

lemma sublist_Join: "x \<in> set xs \<Longrightarrow> sublist x (Join xs sep)"
proof (induction xs sep rule: Join.induct)
  case (1 sep)
  then show ?case by simp
next
  case (2 y sep)
  then show ?case by simp
next
  case (3 a b ys sep)
  show ?case
  proof (cases "x = a")
    case True
    then show ?thesis by (simp add: sublist_append_rightI)
  next
    case False
    with 3 have "sublist x (Join (b # ys) sep)" by simp
    then obtain ps ss where "Join (b # ys) sep = ps @ x @ ss" by (auto simp: sublist_def)
    then have "a @ sep @ Join (b # ys) sep = (a @ sep @ ps) @ x @ ss" by simp
    then have "sublist x (a @ sep @ Join (b # ys) sep)" unfolding sublist_def by blast
    then show ?thesis by simp
  qed
qed

subsection \<open>The loops of the fingerprint cycle\<close>

lemma readDevice_ok:
  "allReadsSucceed hw dev \<Longrightarrow> readDevice hw dev = Inr (descriptorOf hw dev)"
  by (auto simp: readDevice_def allReadsSucceed_def descriptorOf_def split: prod.splits option.splits)

lemma readDevice_fail:
  "\<not> allReadsSucceed hw dev \<Longrightarrow> \<exists>m. readDevice hw dev = Inl m"
  by (auto simp: readDevice_def allReadsSucceed_def split: prod.splits option.splits)

lemma discover_filter:
  "discover hw devs acc = acc @ map (descriptorOf hw) (filter (allReadsSucceed hw) devs)"
proof (induction devs arbitrary: acc)
  case Nil
  then show ?case by simp
next
  case (Cons dev devs)
  show ?case
  proof (cases "allReadsSucceed hw dev")
    case True
    then show ?thesis using Cons.IH by (simp add: readDevice_ok)
  next
    case False
    then obtain m where "readDevice hw dev = Inl m" using readDevice_fail by blast
    with False show ?thesis using Cons.IH by simp
  qed
qed

lemma fst_mergeLoop:
  "fst (mergeLoop ds (m, c)) k =
     (if filter (\<lambda>d. model d = k) ds = [] then m k
      else Some ((case m k of None \<Rightarrow> [] | Some l \<Rightarrow> l) @ filter (\<lambda>d. model d = k) ds))"
  by (induction ds arbitrary: m c) auto

lemma snd_mergeLoop_dom:
  "dom (snd (mergeLoop ds (m, c))) = dom c \<union> serial_nbr ` set ds"
  by (induction ds arbitrary: m c) auto

lemma snd_mergeLoop_indep:
  "snd (mergeLoop ds (m, c)) = snd (mergeLoop ds (m', c))"
  by (induction ds arbitrary: m m' c) auto

lemma fst_mergeLoop_indep:
  "fst (mergeLoop ds (m, c)) = fst (mergeLoop ds (m, c'))"
  by (rule ext) (simp add: fst_mergeLoop)

lemma byModel_apply:
  "byModel ds k =
     (if filter (\<lambda>d. model d = k) ds = [] then None else Some (filter (\<lambda>d. model d = k) ds))"
  by (simp add: byModel_def fst_mergeLoop)

lemma dom_byModel: "dom (byModel ds) = model ` set ds"
  by (auto simp: byModel_apply dom_def filter_empty_conv)

lemma groupLoop_map:
  "groupLoop m ks acc =
     acc @ map (\<lambda>k. deviceGroupFromFingerprintData k (case m k of None \<Rightarrow> [] | Some l \<Rightarrow> l)) ks"
  by (induction ks arbitrary: acc) auto

lemma fingerprintBody_eq:
  "fingerprintBody hw devs ks d =
     (d\<lparr>devices := snd (mergeLoop (discover hw devs []) (Map.empty, devices d))\<rparr>,
      map EvReadAttributes devs @
      map (\<lambda>device. EvCacheWrite (serial_nbr device) (address device)) (discover hw devs []) @
      [EvSend (NewFingerprint (groupLoop (byModel (discover hw devs [])) ks []))])"
  using fst_mergeLoop_indep [of "discover hw devs []" Map.empty "devices d" Map.empty]
  by (simp add: fingerprintBody_def Let_def byModel_def case_prod_beta)

lemma writeFingerprintToChannel_eq:
  "writeFingerprintToChannel hw ks d =
     (d\<lparr>devices := snd (mergeLoop (discoveredIn hw) (Map.empty, devices d))\<rparr>,
      [EvLock, EvUpdateDeviceList, EvGetDevices] @
      map EvReadAttributes (fst (GetDevices hw)) @
      map (\<lambda>device. EvCacheWrite (serial_nbr device) (address device)) (discoveredIn hw) @
      [EvSend (NewFingerprint (groupLoop (byModel (discoveredIn hw)) ks [])), EvUnlock])"
  by (simp add: writeFingerprintToChannel_def fingerprintBody_eq discoveredIn_def split: prod.split)

lemma emitted_append: "emitted (xs @ ys) = emitted xs @ emitted ys"
  by (induction xs rule: emitted.induct) auto

lemma emitted_reads: "emitted (map EvReadAttributes devs) = []"
  by (induction devs) auto

lemma emitted_writes: "emitted (map (\<lambda>device. EvCacheWrite (f device) (g device)) ds) = []"
  by (induction ds) auto

lemma emitted_cycle:
  "emitted (snd (writeFingerprintToChannel hw ks d)) =
     [NewFingerprint (groupLoop (byModel (discoveredIn hw)) ks [])]"
  by (simp add: writeFingerprintToChannel_eq emitted_append emitted_reads emitted_writes)

lemma byModel_fst: "fst (mergeLoop ds (Map.empty, cache)) = byModel ds"
  unfolding byModel_def by (rule fst_mergeLoop_indep)

lemma byModel_Nil: "byModel [] = Map.empty"
  by (simp add: byModel_def)

lemma groupLoop_byModel:
  assumes "rangeOrder (byModel ds) ks"
  shows "groupLoop (byModel ds) ks [] =
           map (\<lambda>k. Some \<lparr>Vendor_group = vendor_const, Type = deviceType, Name = k,
                           groupDevices = map memberOf (filter (\<lambda>dev. model dev = k) ds),
                           Attributes = Map.empty\<rparr>) ks"
proof -
  from assms have s: "set ks = model ` set ds"
    by (simp add: rangeOrder_def dom_byModel)
  have "deviceGroupFromFingerprintData k (case byModel ds k of None \<Rightarrow> [] | Some l \<Rightarrow> l) =
          Some \<lparr>Vendor_group = vendor_const, Type = deviceType, Name = k,
                groupDevices = map memberOf (filter (\<lambda>dev. model dev = k) ds),
                Attributes = Map.empty\<rparr>"
    if "k \<in> set ks" for k
  proof -
    from that s have "filter (\<lambda>dev. model dev = k) ds \<noteq> []"
      by (auto simp: filter_empty_conv)
    then show ?thesis
      by (simp add: byModel_apply deviceGroupFromFingerprintData_def memberOf_def)
  qed
  then show ?thesis by (simp add: groupLoop_map)
qed

lemma cacheWrites_append: "cacheWrites (xs @ ys) = cacheWrites xs @ cacheWrites ys"
  by (induction xs rule: cacheWrites.induct) auto

lemma cacheWrites_reads: "cacheWrites (map EvReadAttributes devs) = []"
  by (induction devs) auto

lemma cacheWrites_writes:
  "cacheWrites (map (\<lambda>device. EvCacheWrite (f device) (g device)) ds) = map (\<lambda>device. (f device, g device)) ds"
  by (induction ds) auto

lemma discover_removeAll:
  "\<not> allReadsSucceed hw dev \<Longrightarrow> discover hw (removeAll dev devs) [] = discover hw devs []"
proof -
  assume a: "\<not> allReadsSucceed hw dev"
  have "filter (allReadsSucceed hw) (removeAll dev devs) = filter (allReadsSucceed hw) devs"
    using a by (induction devs) auto
  then show ?thesis by (simp add: discover_filter)
qed

lemma dom_devices_cycle:
  "dom (devices (fst (writeFingerprintToChannel hw ks d))) =
     dom (devices d) \<union> serial_nbr ` set (discoveredIn hw)"
  by (simp add: writeFingerprintToChannel_eq snd_mergeLoop_dom)

lemma underLock_held_append:
  "EvLock \<notin> set xs \<Longrightarrow> EvUnlock \<notin> set xs \<Longrightarrow> underLock True (xs @ ys) = xs @ underLock True ys"
proof (induction xs)
  case Nil
  show ?case by simp
next
  case (Cons x xs)
  then show ?case by (cases x) simp_all
qed

lemma outsideLock_held_append:
  "EvLock \<notin> set xs \<Longrightarrow> EvUnlock \<notin> set xs \<Longrightarrow> outsideLock True (xs @ ys) = outsideLock True ys"
proof (induction xs)
  case Nil
  show ?case by simp
next
  case (Cons x xs)
  then show ?case by (cases x) simp_all
qed

lemma underLock_reads:
  "underLock True (map EvReadAttributes devs @ ys) = map EvReadAttributes devs @ underLock True ys"
  by (rule underLock_held_append) auto

lemma underLock_writes:
  "underLock True (map (\<lambda>device. EvCacheWrite (f device) (g device)) ds @ ys) =
     map (\<lambda>device. EvCacheWrite (f device) (g device)) ds @ underLock True ys"
  by (rule underLock_held_append) auto

lemma outsideLock_reads:
  "outsideLock True (map EvReadAttributes devs @ ys) = outsideLock True ys"
  by (rule outsideLock_held_append) auto

lemma outsideLock_writes:
  "outsideLock True (map (\<lambda>device. EvCacheWrite (f device) (g device)) ds @ ys) =
     outsideLock True ys"
  by (rule outsideLock_held_append) auto

text \<open>What the loop of \<open>doFingerprint\<close> does to the keys of the cache: every cycle adds
  the serial numbers it discovers, and none is removed.\<close>

lemma cache_keys_accumulate:
  "dom (devices (doFingerprint ticks d)) =
     dom (devices d) \<union> (\<Union>(hw, ks)\<in>set ticks. serial_nbr ` set (discoveredIn hw))"
proof (induction ticks arbitrary: d)
  case Nil
  show ?case by simp
next
  case (Cons t ticks)
  obtain hw ks where t: "t = (hw, ks)" by (cases t)
  show ?case unfolding t by (simp add: Cons.IH dom_devices_cycle Un_assoc)
qed

subsection \<open>The laboratories, evaluated\<close>

lemmas lab_defs = labTwoCameras_def labFirstUnreadable_def labEmpty_def labBroken_def
  GetDevices_def GetNumDevices_def readDevice_def upt_rec

lemma discoveredIn_labTwoCameras:
  "discoveredIn labTwoCameras =
     [\<lparr>device_id = ''cam-0'', physical_id = ''phys-0'', model = ''camX'', serial_nbr = ''A1'',
       vendor = ''The Imaging Source'', address = ''10.0.0.1'', protocol = ''GigEVision''\<rparr>,
      \<lparr>device_id = ''cam-1'', physical_id = ''phys-1'', model = ''camX'', serial_nbr = ''A2'',
       vendor = ''The Imaging Source'', address = ''10.0.0.2'', protocol = ''GigEVision''\<rparr>]"
  by (simp add: discoveredIn_def lab_defs)

lemma devices_after_cycle:
  "devices (fst (writeFingerprintToChannel labTwoCameras ks (NewGenicamDevice\<lparr>enabled := b\<rparr>))) =
     [''A1'' \<mapsto> ''10.0.0.1'', ''A2'' \<mapsto> ''10.0.0.2'']"
  by (simp add: writeFingerprintToChannel_eq discoveredIn_labTwoCameras NewGenicamDevice_def)

lemma enabled_after_cycle:
  "enabled (fst (writeFingerprintToChannel hw ks d)) = enabled d"
  by (simp add: writeFingerprintToChannel_eq)

lemma enabledAfterCycle_simps:
  "enabled enabledAfterCycle"
  "devices enabledAfterCycle = [''A1'' \<mapsto> ''10.0.0.1'', ''A2'' \<mapsto> ''10.0.0.2'']"
  by (simp_all add: enabledAfterCycle_def enabled_after_cycle devices_after_cycle)

lemma disabledAfterCycle_simps:
  "\<not> enabled disabledAfterCycle"
  "devices disabledAfterCycle = [''A1'' \<mapsto> ''10.0.0.1'', ''A2'' \<mapsto> ''10.0.0.2'']"
  by (simp_all add: disabledAfterCycle_def enabled_after_cycle devices_after_cycle)

lemma GetDevices_labTwoCameras:
  "GetDevices labTwoCameras = ([ArvDevice 0, ArvDevice 1], None)"
  by (simp add: GetDevices_def GetNumDevices_def labTwoCameras_def upt_rec)

lemma rangeOrder_labTwoCameras: "rangeOrder (byModel (discoveredIn labTwoCameras)) [''camX'']"
  by (auto simp: rangeOrder_def dom_byModel discoveredIn_labTwoCameras)

lemma discoveredIn_labEmpty: "discoveredIn labEmpty = []"
  by (simp add: discoveredIn_def lab_defs)

lemma discoveredIn_labBroken: "discoveredIn labBroken = []"
  by (simp add: discoveredIn_def lab_defs)

section \<open>Properties of Reserve\<close>

text \<open>
  C1. The claim: a successful reservation holds, for each requested identifier, an entry
  of its own with that device's serial number and address. \<open>Reserve\<close> writes every
  device under the same two environment names, so each iteration of its second loop
  overwrites the one before. For the request A1, A2 after a cycle that found both
  cameras, the response holds the serial number and address of A2 only: neither A1 nor
  its address 10.0.0.1 is a value of the environment.
\<close>

theorem Reserve_two_devices_keeps_last:
  "Reserve enabledAfterCycle [''A1'', ''A2''] =
     Inr \<lparr>Envs = [deviceSerialNbr \<mapsto> ''A2'', deviceAddress \<mapsto> ''10.0.0.2''],
          Mounts = [], Devices = []\<rparr> \<and>
   ''A1'' \<notin> ran [deviceSerialNbr \<mapsto> ''A2'', deviceAddress \<mapsto> ''10.0.0.2''] \<and>
   ''10.0.0.1'' \<notin> ran [deviceSerialNbr \<mapsto> ''A2'', deviceAddress \<mapsto> ''10.0.0.2'']"
  by (auto simp: Reserve_def ReserveAt_def enabledAfterCycle_simps ran_def
      deviceSerialNbr_def deviceAddress_def)

text \<open>
  C2, as amended. A plugin that is not enabled answers every non-empty request with the
  error \<open>errPluginDisabled\<close>, whatever the cache holds; the empty request is answered
  before the enabled flag is looked at.
\<close>

theorem Reserve_disabled_nonempty:
  "\<not> enabled d \<Longrightarrow> deviceIDs \<noteq> [] \<Longrightarrow> Reserve d deviceIDs = Inl errPluginDisabled"
  by (simp add: Reserve_def ReserveAt_def)

theorem Reserve_disabled_nonempty_witness:
  "Reserve NewGenicamDevice [''A1''] = Inl errPluginDisabled"
  using Reserve_disabled_nonempty [of NewGenicamDevice "[''A1'']"]
  by (simp add: NewGenicamDevice_def)

text \<open>
  C2 as stated fails on the empty request: a plugin that was never enabled returns the
  empty reservation and no error.
\<close>

theorem Reserve_disabled_empty_counterexample:
  "\<not> enabled NewGenicamDevice \<and>
   Reserve NewGenicamDevice [] = Inr \<lparr>Envs = Map.empty, Mounts = [], Devices = []\<rparr> \<and>
   Reserve NewGenicamDevice [] \<noteq> Inl errPluginDisabled"
  by (simp add: Reserve_def ReserveAt_def NewGenicamDevice_def)

text \<open>
  C5, as amended. When the plugin is enabled and at least one requested identifier is
  not a key of the cache, \<open>Reserve\<close> returns no reservation but the one error
  \<open>reservationError\<close>, whose list is exactly the requested identifiers that are absent
  (every one of them, in request order) and whose message contains each of them.
\<close>

theorem Reserve_missing_names_all:
  assumes "enabled d" and "\<exists>i\<in>set deviceIDs. devices d i = None"
  shows "Reserve d deviceIDs = Inl (ReservationError (filter (\<lambda>i. devices d i = None) deviceIDs)) \<and>
         set (filter (\<lambda>i. devices d i = None) deviceIDs) = {i \<in> set deviceIDs. i \<notin> dom (devices d)} \<and>
         (\<forall>i\<in>set deviceIDs. i \<notin> dom (devices d) \<longrightarrow>
            sublist i (reservationError_Error (filter (\<lambda>i. devices d i = None) deviceIDs)))"
proof -
  let ?missing = "filter (\<lambda>i. devices d i = None) deviceIDs"
  from assms(2) have ne: "deviceIDs \<noteq> []" by auto
  from assms(2) have "?missing \<noteq> []" by (simp add: filter_empty_conv)
  with assms(1) ne have r: "Reserve d deviceIDs = Inl (ReservationError ?missing)"
    by (simp add: Reserve_def ReserveAt_def notExisting_filter)
  have s: "set ?missing = {i \<in> set deviceIDs. i \<notin> dom (devices d)}" by (auto simp: dom_def)
  have "sublist i (reservationError_Error ?missing)"
    if "i \<in> set deviceIDs" and "i \<notin> dom (devices d)" for i
  proof -
    from that have "i \<in> set ?missing" by (auto simp: dom_def)
    then have "sublist i (Join ?missing '','')" by (rule sublist_Join)
    then obtain ps ss where "Join ?missing '','' = ps @ i @ ss" by (auto simp: sublist_def)
    then have "reservationError_Error ?missing = (''unknown device IDs: '' @ ps) @ i @ ss"
      by (simp add: reservationError_Error_def)
    then show ?thesis unfolding sublist_def by blast
  qed
  with r s show ?thesis by blast
qed

theorem Reserve_missing_names_all_witness:
  "Reserve enabledAfterCycle [''B9'', ''A1'', ''C7''] = Inl (ReservationError [''B9'', ''C7'']) \<and>
   reservationError_Error [''B9'', ''C7''] = ''unknown device IDs: B9,C7'' \<and>
   sublist ''B9'' ''unknown device IDs: B9,C7'' \<and> sublist ''C7'' ''unknown device IDs: B9,C7''"
  using Reserve_missing_names_all [of enabledAfterCycle "[''B9'', ''A1'', ''C7'']"]
  by (simp add: enabledAfterCycle_simps reservationError_Error_def dom_def)

text \<open>
  C5 as stated says nothing of the enabled flag, and fails when the plugin is disabled:
  the request A1, B9 with B9 absent from the cache is answered with the error
  \<open>errPluginDisabled\<close>, which names no identifier.
\<close>

theorem Reserve_disabled_missing_counterexample:
  "\<not> enabled disabledAfterCycle \<and>
   devices disabledAfterCycle ''B9'' = None \<and>
   Reserve disabledAfterCycle [''A1'', ''B9''] = Inl errPluginDisabled \<and>
   (\<forall>ids. Reserve disabledAfterCycle [''A1'', ''B9''] \<noteq> Inl (ReservationError ids))"
  by (simp add: Reserve_def ReserveAt_def disabledAfterCycle_simps errPluginDisabled_def)

text \<open>
  C10. When the first loop of \<open>Reserve\<close> finds no missing identifier and the second
  loop reads the same cache, the second loop returns a response for every starting
  response: it never returns the status error for an unknown device, and neither does
  \<open>Reserve\<close>.
\<close>

theorem second_lookup_never_unknown:
  assumes "notExisting (devices d) deviceIDs [] = []"
  shows "(\<exists>r. buildResponse (devices d) deviceIDs resp = Inr r) \<and>
         (\<forall>s. buildResponse (devices d) deviceIDs resp \<noteq> Inl (UnknownDevice s)) \<and>
         (\<forall>s. Reserve d deviceIDs \<noteq> Inl (UnknownDevice s))"
proof -
  from assms have all: "\<forall>i\<in>set deviceIDs. devices d i \<noteq> None"
    by (simp add: notExisting_filter filter_empty_conv)
  then obtain r where r: "buildResponse (devices d) deviceIDs resp = Inr r"
    using buildResponse_found by blast
  from all obtain r' where
    "buildResponse (devices d) deviceIDs \<lparr>Envs = Map.empty, Mounts = [], Devices = []\<rparr> = Inr r'"
    using buildResponse_found by blast
  then have "Reserve d deviceIDs \<noteq> Inl (UnknownDevice s)" for s
    by (simp add: Reserve_def ReserveAt_def Let_def errPluginDisabled_def)
  with r show ?thesis by simp
qed

theorem second_lookup_never_unknown_witness:
  "notExisting (devices enabledAfterCycle) [''A1'', ''A2''] [] = [] \<and>
   (\<exists>r. buildResponse (devices enabledAfterCycle) [''A1'', ''A2'']
          \<lparr>Envs = Map.empty, Mounts = [], Devices = []\<rparr> = Inr r) \<and>
   (\<forall>s. Reserve enabledAfterCycle [''A1'', ''A2''] \<noteq> Inl (UnknownDevice s))"
proof -
  have h: "notExisting (devices enabledAfterCycle) [''A1'', ''A2''] [] = []"
    by (simp add: enabledAfterCycle_simps)
  from second_lookup_never_unknown [OF h, of "\<lparr>Envs = Map.empty, Mounts = [], Devices = []\<rparr>"] h
  show ?thesis by blast
qed

text \<open>The branch is live code of the second loop: run on a cache without the key, it is
  taken.\<close>

lemma ReserveAt_cache_changed:
  "ReserveAt enabledAfterCycle Map.empty [''A1''] = Inl (UnknownDevice ''A1'')"
  by (simp add: ReserveAt_def enabledAfterCycle_simps)

section \<open>Properties of the fingerprint cycle\<close>

text \<open>
  C3, as amended. In every cycle the exclusive lock of the cache is taken before the
  rescan and released only when \<open>writeFingerprintToChannel\<close> returns: nothing of the
  cycle happens outside the lock, and the rescan, the listing, the attribute reads of
  every handle, the cache writes and the send of the response all happen while it is
  held.
\<close>

theorem cycle_runs_under_lock:
  "outsideLock False (snd (writeFingerprintToChannel hw ks d)) = [] \<and>
   underLock False (snd (writeFingerprintToChannel hw ks d)) =
     [EvUpdateDeviceList, EvGetDevices] @
     map EvReadAttributes (fst (GetDevices hw)) @
     map (\<lambda>device. EvCacheWrite (serial_nbr device) (address device)) (discoveredIn hw) @
     [EvSend (NewFingerprint (groupLoop (byModel (discoveredIn hw)) ks []))]"
  by (simp add: writeFingerprintToChannel_eq underLock_reads underLock_writes
      outsideLock_reads outsideLock_writes)

theorem cycle_runs_under_lock_witness:
  "outsideLock False (snd (writeFingerprintToChannel labFirstUnreadable [''camX''] NewGenicamDevice)) = [] \<and>
   underLock False (snd (writeFingerprintToChannel labFirstUnreadable [''camX''] NewGenicamDevice)) =
     [EvUpdateDeviceList, EvGetDevices, EvReadAttributes (ArvDevice 0), EvReadAttributes (ArvDevice 1),
      EvCacheWrite ''A2'' ''10.0.0.2'',
      EvSend \<lparr>fingerprintDevices =
               [Some \<lparr>Vendor_group = ''tis'', Type = ''genicam'', Name = ''camX'',
                      groupDevices = [\<lparr>ID = ''A2'', Healthy = True, HwLocality = None\<rparr>],
                      Attributes = Map.empty\<rparr>],
             Error = None\<rparr>]"
  using cycle_runs_under_lock [of labFirstUnreadable "[''camX'']" NewGenicamDevice]
  by (simp add: discoveredIn_def byModel_def lab_defs NewFingerprint_def
      deviceGroupFromFingerprintData_def vendor_const_def deviceType_def)

text \<open>
  C3 as stated has enumeration and attribute reads outside the lock. In the laboratory
  with two cameras the rescan, the listing and both attribute reads are among the events
  under the lock, and no enumeration event is outside it.
\<close>

theorem enumeration_under_lock_counterexample:
  "filter isEnumeration (underLock False (snd (writeFingerprintToChannel labTwoCameras [''camX''] NewGenicamDevice))) =
     [EvUpdateDeviceList, EvGetDevices, EvReadAttributes (ArvDevice 0), EvReadAttributes (ArvDevice 1)] \<and>
   filter isEnumeration (outsideLock False (snd (writeFingerprintToChannel labTwoCameras [''camX''] NewGenicamDevice))) = []"
  by (simp add: writeFingerprintToChannel_eq discoveredIn_labTwoCameras GetDevices_labTwoCameras)

text \<open>
  C4. The claim: after a completed cycle the keys of the cache are exactly the serial
  numbers the latest cycle discovered, so a device that vanished is no key. The merge
  loop only stores into \<open>d.devices\<close>, and nothing removes a key. After a cycle that
  finds the cameras A1 and A2 and a second cycle that finds no camera, the second
  cycle's response has no group, yet A1 and A2 are still keys of the cache, and
  \<open>Reserve\<close> still answers a request for the vanished A2 with its old address: the
  membership check of \<open>Reserve\<close>, which its comment says is there for a device that
  disappears, cannot see that it did.
\<close>

theorem cache_keeps_vanished_devices:
  "serial_nbr ` set (discoveredIn labEmpty) = {} \<and>
   emitted (snd (writeFingerprintToChannel labEmpty [] enabledAfterCycle)) =
     [\<lparr>fingerprintDevices = [], Error = None\<rparr>] \<and>
   devices (doFingerprint [(labTwoCameras, [''camX'']), (labEmpty, [])]
              (NewGenicamDevice\<lparr>enabled := True\<rparr>)) =
     [''A1'' \<mapsto> ''10.0.0.1'', ''A2'' \<mapsto> ''10.0.0.2''] \<and>
   dom (devices (doFingerprint [(labTwoCameras, [''camX'']), (labEmpty, [])]
                   (NewGenicamDevice\<lparr>enabled := True\<rparr>))) \<noteq>
     serial_nbr ` set (discoveredIn labEmpty) \<and>
   Reserve (doFingerprint [(labTwoCameras, [''camX'']), (labEmpty, [])]
              (NewGenicamDevice\<lparr>enabled := True\<rparr>)) [''A2''] =
     Inr \<lparr>Envs = [deviceSerialNbr \<mapsto> ''A2'', deviceAddress \<mapsto> ''10.0.0.2''],
          Mounts = [], Devices = []\<rparr>"
proof -
  let ?d = "doFingerprint [(labTwoCameras, [''camX'']), (labEmpty, [])]
              (NewGenicamDevice\<lparr>enabled := True\<rparr>)"
  have c: "devices ?d = [''A1'' \<mapsto> ''10.0.0.1'', ''A2'' \<mapsto> ''10.0.0.2'']"
    by (simp add: writeFingerprintToChannel_eq discoveredIn_labTwoCameras discoveredIn_labEmpty
        NewGenicamDevice_def)
  have e: "enabled ?d" by (simp add: enabled_after_cycle NewGenicamDevice_def)
  have s: "emitted (snd (writeFingerprintToChannel labEmpty [] enabledAfterCycle)) =
     [\<lparr>fingerprintDevices = [], Error = None\<rparr>]"
    by (simp add: emitted_cycle NewFingerprint_def)
  have r: "Reserve ?d [''A2''] =
     Inr \<lparr>Envs = [deviceSerialNbr \<mapsto> ''A2'', deviceAddress \<mapsto> ''10.0.0.2''],
          Mounts = [], Devices = []\<rparr>"
    using e c by (simp add: Reserve_def ReserveAt_def)
  from c s r show ?thesis by (simp add: discoveredIn_labEmpty)
qed

text \<open>
  C6. For every list of descriptors and every order in which the group loop ranges over
  the models, the loops of lines 121 to 131 build one group for every model of the list
  and no other: the names of the groups are the models, each once; vendor and type are
  the constants; and the members of the group of a model are the descriptors of that
  model in the order of the list, each as its serial number with \<open>Healthy\<close> set.
\<close>

theorem groups_one_per_model:
  assumes "rangeOrder (fst (mergeLoop ds (Map.empty, cache))) ks"
  shows "groupLoop (fst (mergeLoop ds (Map.empty, cache))) ks [] =
           map (\<lambda>k. Some \<lparr>Vendor_group = vendor_const, Type = deviceType, Name = k,
                           groupDevices =
                             map (\<lambda>dev. \<lparr>ID = serial_nbr dev, Healthy = True, HwLocality = None\<rparr>)
                               (filter (\<lambda>dev. model dev = k) ds),
                           Attributes = Map.empty\<rparr>) ks \<and>
         distinct ks \<and> set ks = model ` set ds"
proof -
  from assms have r: "rangeOrder (byModel ds) ks" by (simp add: byModel_fst)
  then have "distinct ks" and "set ks = model ` set ds"
    by (simp_all add: rangeOrder_def dom_byModel)
  moreover have "memberOf = (\<lambda>dev. \<lparr>ID = serial_nbr dev, Healthy = True, HwLocality = None\<rparr>)"
    by (rule ext) (simp add: memberOf_def)
  ultimately show ?thesis using groupLoop_byModel [OF r] by (simp add: byModel_fst)
qed

theorem groups_one_per_model_witness:
  "rangeOrder (fst (mergeLoop threeDescriptors (Map.empty, Map.empty))) [''camY'', ''camX''] \<and>
   groupLoop (fst (mergeLoop threeDescriptors (Map.empty, Map.empty))) [''camY'', ''camX''] [] =
     [Some \<lparr>Vendor_group = ''tis'', Type = ''genicam'', Name = ''camY'',
            groupDevices = [\<lparr>ID = ''B1'', Healthy = True, HwLocality = None\<rparr>],
            Attributes = Map.empty\<rparr>,
      Some \<lparr>Vendor_group = ''tis'', Type = ''genicam'', Name = ''camX'',
            groupDevices = [\<lparr>ID = ''A1'', Healthy = True, HwLocality = None\<rparr>,
                            \<lparr>ID = ''A2'', Healthy = True, HwLocality = None\<rparr>],
            Attributes = Map.empty\<rparr>]"
proof -
  have h: "rangeOrder (fst (mergeLoop threeDescriptors (Map.empty, Map.empty))) [''camY'', ''camX'']"
    by (auto simp: rangeOrder_def threeDescriptors_def)
  from groups_one_per_model [OF h] h show ?thesis
    by (simp add: threeDescriptors_def vendor_const_def deviceType_def)
qed

text \<open>
  C7. The one response a cycle sends has no nil group and no group without members, and
  the members of all its groups together are exactly the members made from the
  descriptors the cycle discovered, that is from the handles all of whose reads
  succeeded.
\<close>

theorem groups_nonempty_and_cover:
  assumes "rangeOrder (byModel (discoveredIn hw)) ks"
  shows "\<exists>groups. emitted (snd (writeFingerprintToChannel hw ks d)) = [NewFingerprint groups] \<and>
           None \<notin> set groups \<and>
           (\<forall>g. Some g \<in> set groups \<longrightarrow> groupDevices g \<noteq> []) \<and>
           (\<Union>g\<in>{g. Some g \<in> set groups}. set (groupDevices g)) = memberOf ` set (discoveredIn hw)"
proof -
  let ?ds = "discoveredIn hw"
  let ?G = "\<lambda>k. \<lparr>Vendor_group = vendor_const, Type = deviceType, Name = k,
                  groupDevices = map memberOf (filter (\<lambda>dev. model dev = k) ?ds),
                  Attributes = Map.empty\<rparr>"
  let ?groups = "map (\<lambda>k. Some (?G k)) ks"
  from assms have s: "set ks = model ` set ?ds"
    by (simp add: rangeOrder_def dom_byModel)
  have e: "emitted (snd (writeFingerprintToChannel hw ks d)) = [NewFingerprint ?groups]"
    by (simp add: emitted_cycle groupLoop_byModel [OF assms])
  have n: "None \<notin> set ?groups" by auto
  have ne: "groupDevices g \<noteq> []" if "Some g \<in> set ?groups" for g
  proof -
    from that obtain k where k: "k \<in> set ks" and g: "g = ?G k" by auto
    from k s have "filter (\<lambda>dev. model dev = k) ?ds \<noteq> []" by (auto simp: filter_empty_conv)
    with g show ?thesis by simp
  qed
  have u: "(\<Union>g\<in>{g. Some g \<in> set ?groups}. set (groupDevices g)) = memberOf ` set ?ds"
  proof (rule set_eqI, rule iffI)
    fix x assume "x \<in> (\<Union>g\<in>{g. Some g \<in> set ?groups}. set (groupDevices g))"
    then obtain g where "Some g \<in> set ?groups" and x: "x \<in> set (groupDevices g)" by blast
    then obtain k where "g = ?G k" by auto
    with x show "x \<in> memberOf ` set ?ds" by auto
  next
    fix x assume "x \<in> memberOf ` set ?ds"
    then obtain dev where dev: "dev \<in> set ?ds" and x: "x = memberOf dev" by blast
    from dev s have k: "model dev \<in> set ks" by auto
    then have "Some (?G (model dev)) \<in> set ?groups" by (simp add: image_iff)
    moreover from dev x have "x \<in> set (groupDevices (?G (model dev)))" by simp
    ultimately show "x \<in> (\<Union>g\<in>{g. Some g \<in> set ?groups}. set (groupDevices g))" by blast
  qed
  from e n ne u show ?thesis by blast
qed

theorem groups_nonempty_and_cover_witness:
  "rangeOrder (byModel (discoveredIn labTwoCameras)) [''camX''] \<and>
   (\<exists>groups. emitted (snd (writeFingerprintToChannel labTwoCameras [''camX''] NewGenicamDevice)) =
                [NewFingerprint groups] \<and>
      None \<notin> set groups \<and>
      (\<Union>g\<in>{g. Some g \<in> set groups}. set (groupDevices g)) =
        {\<lparr>ID = ''A1'', Healthy = True, HwLocality = None\<rparr>,
         \<lparr>ID = ''A2'', Healthy = True, HwLocality = None\<rparr>})"
  using groups_nonempty_and_cover [OF rangeOrder_labTwoCameras, of NewGenicamDevice]
    rangeOrder_labTwoCameras
  by (simp add: discoveredIn_labTwoCameras memberOf_def) blast

text \<open>
  C8. The discovery loop yields the descriptor of every handle all of whose seven reads
  succeed, in order, and nothing for the others: a failing read skips its handle and the
  loop goes on. For a handle with a failing read, the cycle ends in the same plugin
  state, with the same cache writes and the same response sent, as the cycle run on the
  list of handles without it.
\<close>

theorem unreadable_device_excluded:
  assumes "\<not> allReadsSucceed hw dev"
  shows "discover hw devs [] = map (descriptorOf hw) (filter (allReadsSucceed hw) devs) \<and>
         fst (fingerprintBody hw devs ks d) = fst (fingerprintBody hw (removeAll dev devs) ks d) \<and>
         cacheWrites (snd (fingerprintBody hw devs ks d)) =
           cacheWrites (snd (fingerprintBody hw (removeAll dev devs) ks d)) \<and>
         emitted (snd (fingerprintBody hw devs ks d)) =
           emitted (snd (fingerprintBody hw (removeAll dev devs) ks d))"
  using discover_removeAll [OF assms, of devs]
  by (simp add: fingerprintBody_eq discover_filter cacheWrites_append cacheWrites_reads
      cacheWrites_writes emitted_append emitted_reads emitted_writes)

theorem unreadable_device_excluded_witness:
  "\<not> allReadsSucceed labFirstUnreadable (ArvDevice 0) \<and>
   discover labFirstUnreadable [ArvDevice 0, ArvDevice 1] [] =
     [\<lparr>device_id = ''cam-1'', physical_id = ''phys-1'', model = ''camX'', serial_nbr = ''A2'',
       vendor = ''The Imaging Source'', address = ''10.0.0.2'', protocol = ''GigEVision''\<rparr>] \<and>
   cacheWrites (snd (fingerprintBody labFirstUnreadable [ArvDevice 0, ArvDevice 1] [''camX''] NewGenicamDevice)) =
     cacheWrites (snd (fingerprintBody labFirstUnreadable [ArvDevice 1] [''camX''] NewGenicamDevice)) \<and>
   cacheWrites (snd (fingerprintBody labFirstUnreadable [ArvDevice 1] [''camX''] NewGenicamDevice)) =
     [(''A2'', ''10.0.0.2'')]"
proof -
  have h: "\<not> allReadsSucceed labFirstUnreadable (ArvDevice 0)"
    by (simp add: allReadsSucceed_def lab_defs)
  have w: "cacheWrites (snd (fingerprintBody labFirstUnreadable [ArvDevice 1] [''camX''] NewGenicamDevice)) =
     [(''A2'', ''10.0.0.2'')]"
    by (simp add: fingerprintBody_eq cacheWrites_append cacheWrites_writes lab_defs)
  from unreadable_device_excluded [OF h, of "[ArvDevice 0, ArvDevice 1]" "[''camX'']" NewGenicamDevice] h w
  show ?thesis
    by (simp add: allReadsSucceed_def descriptorOf_def lab_defs)
qed

text \<open>
  C9. Every cycle sends exactly one response. It carries no error and all the groups of
  the cycle, one for every model discovered and none of them nil; when \<open>GetDevices\<close>
  fails, or returns no handle, the response is sent all the same, with no group.
\<close>

theorem cycle_emits_one_event:
  assumes "rangeOrder (byModel (discoveredIn hw)) ks"
  shows "\<exists>resp. emitted (snd (writeFingerprintToChannel hw ks d)) = [resp] \<and>
           Error resp = None \<and>
           fingerprintDevices resp = groupLoop (byModel (discoveredIn hw)) ks [] \<and>
           None \<notin> set (fingerprintDevices resp) \<and>
           length (fingerprintDevices resp) = card (model ` set (discoveredIn hw)) \<and>
           (snd (GetDevices hw) \<noteq> None \<longrightarrow> fingerprintDevices resp = []) \<and>
           (fst (GetDevices hw) = [] \<longrightarrow> fingerprintDevices resp = [])"
proof -
  let ?ds = "discoveredIn hw"
  let ?groups = "groupLoop (byModel ?ds) ks []"
  from assms have d: "distinct ks" and s: "set ks = model ` set ?ds"
    by (simp_all add: rangeOrder_def dom_byModel)
  have e: "emitted (snd (writeFingerprintToChannel hw ks d)) = [NewFingerprint ?groups]"
    by (rule emitted_cycle)
  have n: "None \<notin> set ?groups" by (auto simp: groupLoop_byModel [OF assms])
  have "length ?groups = length ks" by (simp add: groupLoop_map)
  also from d have "\<dots> = card (set ks)" by (simp add: distinct_card)
  finally have l: "length ?groups = card (model ` set ?ds)" using s by simp
  have z: "?groups = []" if "fst (GetDevices hw) = []"
  proof -
    from that have "?ds = []" by (simp add: discoveredIn_def)
    with s have "ks = []" by simp
    then show ?thesis by simp
  qed
  have f: "fst (GetDevices hw) = []" if "snd (GetDevices hw) \<noteq> None"
    using that by (auto simp: GetDevices_def split: prod.splits option.splits)
  from e n l z f show ?thesis by (simp add: NewFingerprint_def)
qed

theorem cycle_emits_one_event_witness:
  "rangeOrder (byModel (discoveredIn labBroken)) [] \<and>
   snd (GetDevices labBroken) = Some (Errno 19) \<and>
   emitted (snd (writeFingerprintToChannel labBroken [] NewGenicamDevice)) =
     [\<lparr>fingerprintDevices = [], Error = None\<rparr>]"
proof -
  have h: "rangeOrder (byModel (discoveredIn labBroken)) []"
    by (simp add: rangeOrder_def discoveredIn_labBroken byModel_Nil)
  have g: "snd (GetDevices labBroken) = Some (Errno 19)"
    by (simp add: lab_defs)
  from cycle_emits_one_event [OF h, of NewGenicamDevice] obtain resp where
    "emitted (snd (writeFingerprintToChannel labBroken [] NewGenicamDevice)) = [resp]"
    "Error resp = None" "fingerprintDevices resp = []"
    using g by auto
  then have "emitted (snd (writeFingerprintToChannel labBroken [] NewGenicamDevice)) =
     [\<lparr>fingerprintDevices = [], Error = None\<rparr>]" by simp
  with h g show ?thesis by simp
qed

end
